theory Spec2Isabelle
  imports Complex_Main
begin

chapter \<open>CodeLens backend: the retrieval pipeline\<close>

text \<open>
  A shallow embedding of the Python sources \<^verbatim>\<open>rag_engine/chunker.py\<close>,
  \<^verbatim>\<open>rag_engine/embedder.py\<close>, \<^verbatim>\<open>rag_engine/retriever.py\<close>,
  \<^verbatim>\<open>rag_engine/pdf_loader.py\<close>, \<^verbatim>\<open>backend/rag_engine/generator.py\<close> and
  \<^verbatim>\<open>backend/rag_engine/updater.py\<close>. Pure functions are HOL functions; the functions
  that talk to the vector store, the embedding model, the LLM, the network and the file
  system pass an explicit world state and return either an exception or a value.
\<close>

section \<open>Strings and slices\<close>

text \<open>
  A Python \<^verbatim>\<open>str\<close> is modelled as a \<^typ>\<open>string\<close>, one \<^typ>\<open>char\<close> per code point
  (code points below 256). \<open>isspace\<close> is the whitespace class of \<^verbatim>\<open>str.strip()\<close> and
  \<^verbatim>\<open>str.split()\<close> on that range: TAB, LF, VT, FF, CR, the separators FS, GS, RS and US,
  SPACE, NEL and NO-BREAK SPACE.
\<close>

definition isspace :: "char \<Rightarrow> bool" where
  "isspace c = ((of_char c :: nat) \<in> set [9, 10, 11, 12, 13, 28, 29, 30, 31, 32, 133, 160])"

text \<open>\<^verbatim>\<open>s.strip()\<close>: leading and trailing whitespace removed.\<close>

definition strip :: "string \<Rightarrow> string" where
  "strip s = rev (dropWhile isspace (rev (dropWhile isspace s)))"

text \<open>
  \<^verbatim>\<open>xs[start:stop]\<close> with Python's index adjustment: a negative index counts from the
  end, and both indices are clamped to the range \<open>0 .. len(xs)\<close>; the slice is empty when the
  adjusted stop does not exceed the adjusted start.
\<close>

definition adjust_index :: "nat \<Rightarrow> int \<Rightarrow> nat" where
  "adjust_index n i =
     (if i < 0 then (if i + int n < 0 then 0 else nat (i + int n))
      else if int n < i then n else nat i)"

definition py_slice :: "'a list \<Rightarrow> int \<Rightarrow> int \<Rightarrow> 'a list" where
  "py_slice xs start stop =
     (let lo = adjust_index (length xs) start; hi = adjust_index (length xs) stop
      in take (hi - lo) (drop lo xs))"

section \<open>config.py\<close>

definition COLLECTION_NAME :: string where "COLLECTION_NAME = ''codelens_docs''"
definition LLM_MODEL :: string where "LLM_MODEL = ''llama-3.3-70b-versatile''"
definition CHUNK_SIZE :: int where "CHUNK_SIZE = 800"
definition CHUNK_OVERLAP :: int where "CHUNK_OVERLAP = 100"

section \<open>chunker.py\<close>

text \<open>
  The \<^verbatim>\<open>while start < len(text)\<close> loop of \<^verbatim>\<open>chunk_text\<close>, with the loop variables
  \<open>start\<close> and \<open>chunks\<close> as arguments. The loop is left either by its condition or by the
  \<^verbatim>\<open>break\<close> taken when \<open>chunk_size \<le> overlap\<close>; otherwise \<open>start\<close> grows by the positive
  amount \<open>chunk_size - overlap\<close>, which is the termination argument.
\<close>

function chunk_loop :: "string \<Rightarrow> int \<Rightarrow> int \<Rightarrow> int \<Rightarrow> string list \<Rightarrow> string list" where
  "chunk_loop text chunk_size overlap start chunks =
     (if start < int (length text) then
        (let end' = min (start + chunk_size) (int (length text));
             chunk = strip (py_slice text start end');
             chunks' = (if chunk \<noteq> [] then chunks @ [chunk] else chunks)
         in if chunk_size \<le> overlap then chunks'
            else chunk_loop text chunk_size overlap (start + (chunk_size - overlap)) chunks')
      else chunks)"
  by pat_completeness auto
termination
  by (relation "measure (\<lambda>(text, chunk_size, overlap, start, chunks). nat (int (length text) - start))") auto

declare chunk_loop.simps [simp del]

definition chunk_text :: "string \<Rightarrow> int \<Rightarrow> int \<Rightarrow> string list" where
  "chunk_text text chunk_size overlap =
     (if text = [] then [] else chunk_loop text chunk_size overlap 0 [])"

subsection \<open>Windows of a text\<close>

text \<open>
  Notions used to state what \<open>chunk_text\<close> computes. The window at offset \<open>start\<close> is the
  slice the loop takes there, before stripping. \<open>window_starts n step start\<close> lists the
  offsets \<open>start, start + step, start + 2 * step, \<dots>\<close> below \<open>n\<close>. The unique portions of a
  sequence of windows are the first window and every later window without its first \<open>k\<close>
  characters, the ones it shares with its predecessor. \<open>remove_ws\<close> deletes all whitespace.
\<close>

definition window :: "string \<Rightarrow> int \<Rightarrow> int \<Rightarrow> string" where
  "window text chunk_size start =
     py_slice text start (min (start + chunk_size) (int (length text)))"

function window_starts :: "int \<Rightarrow> int \<Rightarrow> int \<Rightarrow> int list" where
  "window_starts n step start =
     (if 0 < step \<and> start < n then start # window_starts n step (start + step) else [])"
  by pat_completeness auto
termination
  by (relation "measure (\<lambda>(n, step, start). nat (n - start))") auto

declare window_starts.simps [simp del]

fun unique_portions :: "nat \<Rightarrow> string list \<Rightarrow> string list" where
  "unique_portions k [] = []"
| "unique_portions k (w # ws) = w # map (drop k) ws"

definition remove_ws :: "string \<Rightarrow> string" where
  "remove_ws s = filter (\<lambda>c. \<not> isspace c) s"

section \<open>Python values, exceptions and the world\<close>

text \<open>
  Every exception raised in these modules is an instance of \<^verbatim>\<open>Exception\<close>, which is what the
  \<^verbatim>\<open>except Exception\<close> clauses catch. \<open>LibraryError\<close> stands for an exception raised inside
  a library call (requests, BeautifulSoup, PyPDF2, sentence-transformers, qdrant-client,
  groq); the others are raised by the interpreter on the repository's own expressions.
  \<open>str_exn\<close> is \<^verbatim>\<open>str(e)\<close>.
\<close>

datatype exn =
    ValueError string
  | IndexError string
  | TypeError string
  | AttributeError string
  | LibraryError string

fun str_exn :: "exn \<Rightarrow> string" where
  "str_exn (ValueError m) = m"
| "str_exn (IndexError m) = m"
| "str_exn (TypeError m) = m"
| "str_exn (AttributeError m) = m"
| "str_exn (LibraryError m) = m"

text \<open>
  The values found in a payload or a metadata dictionary: strings, integers and
  \<^verbatim>\<open>None\<close>. A dictionary with string keys is a map.
\<close>

datatype pyval = PyStr string | PyInt int | PyNone

type_synonym pydict = "string \<rightharpoonup> pyval"

text \<open>\<^verbatim>\<open>str(n)\<close> for an integer, as an f-string prints it.\<close>

definition digit_char :: "nat \<Rightarrow> char" where
  "digit_char d = char_of (48 + d)"

function digits :: "nat \<Rightarrow> string" where
  "digits n = (if n < 10 then [digit_char n] else digits (n div 10) @ [digit_char (n mod 10)])"
  by pat_completeness auto
termination
  by (relation "measure id") auto

declare digits.simps [simp del]

definition str_int :: "int \<Rightarrow> string" where
  "str_int i = (if i < 0 then CHR ''-'' # digits (nat (- i)) else digits (nat i))"

fun str_pyval :: "pyval \<Rightarrow> string" where
  "str_pyval (PyStr s) = s"
| "str_pyval (PyInt i) = str_int i"
| "str_pyval PyNone = ''None''"

text \<open>\<^verbatim>\<open>sep.join(parts)\<close> and \<^verbatim>\<open>s.split()\<close> (split at runs of whitespace, no empty words).\<close>

fun join :: "string \<Rightarrow> string list \<Rightarrow> string" where
  "join sep [] = []"
| "join sep [x] = x"
| "join sep (x # y # ys) = x @ sep @ join sep (y # ys)"

fun split_acc :: "string \<Rightarrow> string \<Rightarrow> string list" where
  "split_acc word [] = (if word = [] then [] else [word])"
| "split_acc word (c # cs) =
     (if isspace c then (if word = [] then split_acc [] cs else word # split_acc [] cs)
      else split_acc (word @ [c]) cs)"

definition split :: "string \<Rightarrow> string list" where
  "split s = split_acc [] s"

text \<open>
  A stored point (\<^verbatim>\<open>PointStruct\<close>) and a search hit (\<^verbatim>\<open>ScoredPoint\<close>, of which the code reads
  the score and the payload; the payload of a hit is optional in the client's type).
\<close>

record point =
  point_id :: nat
  vector :: "real list"
  payload :: pydict

record scored_point =
  score :: real
  hit_payload :: "pydict option"

text \<open>
  The world the functions act on: the collections and the points of the vector store, the
  module-level \<^verbatim>\<open>_embedder_instance\<close> (loaded or not), and a clock that counts the calls
  made to the outside. Every such call reads the clock and advances it, so that the outside
  may answer two equal requests differently.
\<close>

record world =
  collections :: "string list"
  points :: "point list"
  embedder_loaded :: bool
  clock :: nat

definition tick :: "world \<Rightarrow> world" where
  "tick w = w\<lparr>clock := Suc (clock w)\<rparr>"

text \<open>
  The parsed page as \<^verbatim>\<open>fetch_page_text\<close> reads it after removing the script, style, nav,
  footer and header elements: the title (absent, or present with or without a string),
  the texts of the \<^verbatim>\<open>p\<close>, \<^verbatim>\<open>pre\<close>, \<^verbatim>\<open>code\<close> and \<^verbatim>\<open>li\<close> elements in document order, and
  the text of the whole page.
\<close>

record soup =
  title :: "string option option"
  elements :: "string list"
  all_text :: string

text \<open>
  The outside, one field per library call, each taking the clock value of the call:
  \<^item> \<open>load_model\<close>: \<^verbatim>\<open>SentenceTransformer(model_name)\<close>, which may raise;
  \<^item> \<open>model_encode\<close>: \<^verbatim>\<open>self.model.encode(texts, ...).tolist()\<close>;
  \<^item> \<open>qdrant_get_collections\<close>, \<open>qdrant_create_collection\<close>, \<open>qdrant_upsert\<close>: the fault,
    if any, with which the client answers; without a fault the call takes effect on the
    store;
  \<^item> \<open>qdrant_search\<close>: the client's answer to a search over the stored points;
  \<^item> \<open>groq_create\<close>: \<^verbatim>\<open>client.chat.completions.create\<close> on the system and the user
    prompt, returning the contents of the choices;
  \<^item> \<open>get_soup\<close>: \<^verbatim>\<open>requests.get\<close>, \<^verbatim>\<open>raise_for_status\<close> and the parse of the page;
  \<^item> \<open>os_path_exists\<close>; \<open>PdfReader\<close>: the pages of the file, each with the outcome of its
    \<^verbatim>\<open>extract_text()\<close>.
\<close>

record env =
  load_model :: "nat \<Rightarrow> exn option"
  model_encode :: "nat \<Rightarrow> string list \<Rightarrow> exn + real list list"
  qdrant_get_collections :: "nat \<Rightarrow> exn option"
  qdrant_create_collection :: "nat \<Rightarrow> exn option"
  qdrant_upsert :: "nat \<Rightarrow> point list \<Rightarrow> exn option"
  qdrant_search :: "nat \<Rightarrow> point list \<Rightarrow> real list \<Rightarrow> int \<Rightarrow> exn + scored_point list"
  groq_create :: "nat \<Rightarrow> string \<Rightarrow> string \<Rightarrow> exn + string list"
  get_soup :: "nat \<Rightarrow> string \<Rightarrow> exn + soup"
  os_path_exists :: "nat \<Rightarrow> string \<Rightarrow> bool"
  PdfReader :: "nat \<Rightarrow> string \<Rightarrow> exn + (exn + string) list"

section \<open>embedder.py\<close>

text \<open>
  \<^verbatim>\<open>get_embedder\<close> builds the singleton on first use. \<^verbatim>\<open>embed_text\<close> on a list of
  texts; \<^verbatim>\<open>embed_query\<close> wraps the one string in a list and takes element 0 of the answer.
\<close>

definition get_embedder :: "env \<Rightarrow> world \<Rightarrow> (exn + unit) \<times> world" where
  "get_embedder env w =
     (if embedder_loaded w then (Inr (), w)
      else (case load_model env (clock w) of
              Some e \<Rightarrow> (Inl e, tick w)
            | None \<Rightarrow> (Inr (), (tick w)\<lparr>embedder_loaded := True\<rparr>)))"

definition embed_text :: "env \<Rightarrow> string list \<Rightarrow> world \<Rightarrow> (exn + real list list) \<times> world" where
  "embed_text env texts w = (model_encode env (clock w) texts, tick w)"

definition embed_query :: "env \<Rightarrow> string \<Rightarrow> world \<Rightarrow> (exn + real list) \<times> world" where
  "embed_query env query w =
     (case embed_text env [query] w of
        (Inl e, w1) \<Rightarrow> (Inl e, w1)
      | (Inr vectors, w1) \<Rightarrow>
          (case vectors of
             [] \<Rightarrow> (Inl (IndexError ''list index out of range''), w1)
           | v # _ \<Rightarrow> (Inr v, w1)))"

section \<open>retriever.py\<close>

text \<open>
  \<^verbatim>\<open>init_collection\<close> lists the collections and creates the configured one if it is absent.
  Its \<^verbatim>\<open>except\<close> clause prints and re-raises, so a fault of the client is its result.
\<close>

definition init_collection :: "env \<Rightarrow> world \<Rightarrow> (exn + unit) \<times> world" where
  "init_collection env w =
     (case qdrant_get_collections env (clock w) of
        Some e \<Rightarrow> (Inl e, tick w)
      | None \<Rightarrow>
          (let w1 = tick w in
           if COLLECTION_NAME \<in> set (collections w1) then (Inr (), w1)
           else (case qdrant_create_collection env (clock w1) of
                   Some e \<Rightarrow> (Inl e, tick w1)
                 | None \<Rightarrow> (Inr (), (tick w1)\<lparr>collections := collections w1 @ [COLLECTION_NAME]\<rparr>))))"

text \<open>
  \<^verbatim>\<open>str(uuid.uuid4())\<close> is a fresh identifier: the clock value of the call, which no
  earlier call has drawn. With fresh identifiers an upsert never overwrites a stored point,
  so an accepted upsert appends its points to the store.
\<close>

definition uuid4 :: "world \<Rightarrow> nat \<times> world" where
  "uuid4 w = (clock w, tick w)"

definition upsert :: "env \<Rightarrow> point list \<Rightarrow> world \<Rightarrow> (exn + unit) \<times> world" where
  "upsert env pts w =
     (case qdrant_upsert env (clock w) pts of
        Some e \<Rightarrow> (Inl e, tick w)
      | None \<Rightarrow> (Inr (), (tick w)\<lparr>points := points w @ pts\<rparr>))"

text \<open>
  The inner loop \<^verbatim>\<open>for i, (chunk, vector) in enumerate(zip(batch_chunks, vectors))\<close>: the
  argument \<open>i\<close> is the position in the batch, the list is the zip. In the payload the keys of
  the metadata come last and win over \<^verbatim>\<open>text\<close> and \<^verbatim>\<open>chunk_index\<close>.
\<close>

fun make_points :: "pydict \<Rightarrow> int \<Rightarrow> nat \<Rightarrow> (string \<times> real list) list \<Rightarrow> world \<Rightarrow> point list \<times> world" where
  "make_points metadata batch_start i [] w = ([], w)"
| "make_points metadata batch_start i ((chunk, vec) # rest) w =
     (case uuid4 w of
        (pid, w1) \<Rightarrow>
          (case make_points metadata batch_start (Suc i) rest w1 of
             (pts, w2) \<Rightarrow>
               (\<lparr>point_id = pid, vector = vec,
                 payload = [''text'' \<mapsto> PyStr chunk, ''chunk_index'' \<mapsto> PyInt (batch_start + int i)]
                             ++ metadata\<rparr> # pts, w2)))"

text \<open>
  The outer loop \<^verbatim>\<open>for batch_start in range(0, len(chunks), batch_size)\<close> for a positive
  \<open>batch_size\<close>: \<open>batch_start\<close> runs through \<open>0, batch_size, 2 * batch_size, \<dots>\<close> below
  \<open>len(chunks)\<close>. For a negative \<open>batch_size\<close> the range is empty and the body never runs.
  An exception of the embedder or of the client leaves the loop with the batches uploaded so
  far in the store.
\<close>

function batch_loop :: "env \<Rightarrow> pydict \<Rightarrow> string list \<Rightarrow> int \<Rightarrow> int \<Rightarrow> world \<Rightarrow> (exn + unit) \<times> world" where
  "batch_loop env metadata chunks batch_size batch_start w =
     (if 0 < batch_size \<and> batch_start < int (length chunks) then
        (case embed_text env
                (py_slice chunks batch_start (min (batch_start + batch_size) (int (length chunks)))) w of
           (Inl e, w1) \<Rightarrow> (Inl e, w1)
         | (Inr vectors, w1) \<Rightarrow>
             (case make_points metadata batch_start 0
                     (zip (py_slice chunks batch_start
                             (min (batch_start + batch_size) (int (length chunks)))) vectors) w1 of
                (pts, w2) \<Rightarrow>
                  (case upsert env pts w2 of
                     (Inl e, w3) \<Rightarrow> (Inl e, w3)
                   | (Inr u, w3) \<Rightarrow>
                       batch_loop env metadata chunks batch_size (batch_start + batch_size) w3)))
      else (Inr (), w))"
  by pat_completeness auto
termination
  by (relation "measure (\<lambda>(env, metadata, chunks, batch_size, batch_start, w).
        nat (int (length chunks) - batch_start))") auto

declare batch_loop.simps [simp del]

text \<open>
  \<^verbatim>\<open>add_document(text, metadata=None, batch_size=10)\<close>. \<^verbatim>\<open>metadata or {}\<close> is the empty
  dictionary for \<^verbatim>\<open>None\<close>. \<^verbatim>\<open>range\<close> raises \<^verbatim>\<open>ValueError\<close> on a step of zero. The
  \<^verbatim>\<open>except\<close> clause prints and re-raises. The value returned is \<^verbatim>\<open>len(chunks)\<close>.
\<close>

definition add_document :: "env \<Rightarrow> string \<Rightarrow> pydict option \<Rightarrow> int \<Rightarrow> world \<Rightarrow> (exn + int) \<times> world" where
  "add_document env text metadata batch_size w =
     (let chunks = chunk_text text CHUNK_SIZE CHUNK_OVERLAP in
      if chunks = [] then (Inr 0, w)
      else (case get_embedder env w of
              (Inl e, w1) \<Rightarrow> (Inl e, w1)
            | (Inr embedder, w1) \<Rightarrow>
                if batch_size = 0 then (Inl (ValueError ''range() arg 3 must not be zero''), w1)
                else (case batch_loop env (case metadata of None \<Rightarrow> Map.empty | Some m \<Rightarrow> m)
                             chunks batch_size 0 w1 of
                        (Inl e, w2) \<Rightarrow> (Inl e, w2)
                      | (Inr u, w2) \<Rightarrow> (Inr (int (length chunks)), w2))))"

text \<open>
  \<^verbatim>\<open>search_documents\<close>. A result is the dictionary with the keys \<^verbatim>\<open>text\<close>, \<^verbatim>\<open>score\<close>,
  \<^verbatim>\<open>source\<close> and \<^verbatim>\<open>metadata\<close>. \<^verbatim>\<open>result.payload.get\<close> raises \<^verbatim>\<open>AttributeError\<close> on a hit
  without payload. \<open>search_documents_try\<close> is the body of the \<^verbatim>\<open>try\<close>, \<open>search_documents\<close>
  the function with its \<^verbatim>\<open>except Exception\<close> clause, which returns the empty list.
\<close>

record search_result =
  result_text :: pyval
  result_score :: real
  result_source :: pyval
  result_metadata :: pydict

definition dict_get :: "pydict \<Rightarrow> string \<Rightarrow> pyval \<Rightarrow> pyval" where
  "dict_get d k dflt = (case d k of None \<Rightarrow> dflt | Some v \<Rightarrow> v)"

fun format_results :: "scored_point list \<Rightarrow> exn + search_result list" where
  "format_results [] = Inr []"
| "format_results (hit # hits) =
     (case hit_payload hit of
        None \<Rightarrow> Inl (AttributeError ''NoneType object has no attribute get'')
      | Some p \<Rightarrow>
          (case format_results hits of
             Inl e \<Rightarrow> Inl e
           | Inr results \<Rightarrow>
               Inr (\<lparr>result_text = dict_get p ''text'' (PyStr ''''),
                     result_score = score hit,
                     result_source = dict_get p ''source'' (PyStr ''unknown''),
                     result_metadata = p\<rparr> # results)))"

definition search_documents_try :: "env \<Rightarrow> string \<Rightarrow> int \<Rightarrow> world \<Rightarrow> (exn + search_result list) \<times> world" where
  "search_documents_try env query top_k w =
     (case get_embedder env w of
        (Inl e, w1) \<Rightarrow> (Inl e, w1)
      | (Inr embedder, w1) \<Rightarrow>
          (case embed_query env query w1 of
             (Inl e, w2) \<Rightarrow> (Inl e, w2)
           | (Inr query_vector, w2) \<Rightarrow>
               (case qdrant_search env (clock w2) (points w2) query_vector top_k of
                  Inl e \<Rightarrow> (Inl e, tick w2)
                | Inr search_results \<Rightarrow> (format_results search_results, tick w2))))"

definition search_documents :: "env \<Rightarrow> string \<Rightarrow> int \<Rightarrow> world \<Rightarrow> (exn + search_result list) \<times> world" where
  "search_documents env query top_k w =
     (case search_documents_try env query top_k w of
        (Inl e, w1) \<Rightarrow> (Inr [], w1)
      | (Inr results, w1) \<Rightarrow> (Inr results, w1))"

section \<open>generator.py\<close>

text \<open>
  The dictionary returned by \<^verbatim>\<open>generate_answer\<close> has the keys \<^verbatim>\<open>answer\<close>, \<^verbatim>\<open>sources\<close> and
  \<^verbatim>\<open>context_used\<close>, with \<^verbatim>\<open>model\<close> on success and \<^verbatim>\<open>error\<close> in the \<^verbatim>\<open>except\<close> clause.
\<close>

record source_entry =
  source :: pyval
  source_score :: real
  text_preview :: string

record answer =
  answer :: string
  sources :: "source_entry list"
  context_used :: bool
  model :: "string option"
  error :: "string option"

definition no_information :: answer where
  "no_information =
     \<lparr>answer = ''I don't have enough information to answer that question. Please update the knowledge base.'',
      sources = [], context_used = False, model = None, error = None\<rparr>"

definition error_answer :: "exn \<Rightarrow> answer" where
  "error_answer e =
     \<lparr>answer = ''Error generating answer: '' @ str_exn e,
      sources = [], context_used = False, model = None, error = Some (str_exn e)\<rparr>"

text \<open>
  \<^verbatim>\<open>result['text'][:200] + "..." if len(result['text']) > 200 else result['text']\<close>: the
  condition is evaluated first, and \<^verbatim>\<open>len\<close> raises \<^verbatim>\<open>TypeError\<close> on a value that is not
  a string.
\<close>

fun preview :: "pyval \<Rightarrow> exn + string" where
  "preview (PyStr s) = Inr (if 200 < length s then take 200 s @ ''...'' else s)"
| "preview (PyInt i) = Inl (TypeError ''object of type int has no len()'')"
| "preview PyNone = Inl (TypeError ''object of type NoneType has no len()'')"

text \<open>The loop \<^verbatim>\<open>for i, result in enumerate(search_results, 1)\<close>, \<open>i\<close> as an argument.\<close>

fun build_context :: "nat \<Rightarrow> search_result list \<Rightarrow> exn + (string list \<times> source_entry list)" where
  "build_context i [] = Inr ([], [])"
| "build_context i (result # results) =
     (case preview (result_text result) of
        Inl e \<Rightarrow> Inl e
      | Inr p \<Rightarrow>
          (case build_context (Suc i) results of
             Inl e \<Rightarrow> Inl e
           | Inr (context_parts, srcs) \<Rightarrow>
               Inr ((''[Source '' @ str_int (int i) @ '']: '' @ str_pyval (result_text result))
                      # context_parts,
                    \<lparr>source = result_source result, source_score = result_score result,
                      text_preview = p\<rparr> # srcs)))"

definition system_prompt :: string where
  "system_prompt = concat
     [''You are CodeLens, an expert AI assistant for developers. \<newline>'',
      ''Your role is to answer questions about developer documentation and frameworks accurately.\<newline>'',
      ''\<newline>'',
      ''Instructions:\<newline>'',
      ''- Use ONLY the provided context to answer questions\<newline>'',
      ''- If the context doesn't contain the answer, say so honestly\<newline>'',
      ''- Be concise but comprehensive\<newline>'',
      ''- Use code examples when relevant\<newline>'',
      ''- Cite sources when possible using [Source N] notation\<newline>'',
      ''- Format your answers with proper markdown when appropriate'']"

definition user_prompt :: "string \<Rightarrow> string \<Rightarrow> string" where
  "user_prompt context query =
     ''Context from documentation:\<newline>'' @ context
       @ ''\<newline>\<newline>Question: '' @ query @ ''\<newline>\<newline>Answer:''"

text \<open>
  \<open>generate_answer_try\<close> is the body of the \<^verbatim>\<open>try\<close>; \<^verbatim>\<open>chat_completion.choices[0]\<close>
  raises \<^verbatim>\<open>IndexError\<close> on an answer without choices. \<open>generate_answer\<close> is the function
  with its \<^verbatim>\<open>except Exception\<close> clause.
\<close>

definition generate_answer_try :: "env \<Rightarrow> string \<Rightarrow> int \<Rightarrow> world \<Rightarrow> (exn + answer) \<times> world" where
  "generate_answer_try env query top_k w =
     (case search_documents env query top_k w of
        (Inl e, w1) \<Rightarrow> (Inl e, w1)
      | (Inr search_results, w1) \<Rightarrow>
          (case search_results of
             [] \<Rightarrow> (Inr no_information, w1)
           | _ # _ \<Rightarrow>
               (case build_context 1 search_results of
                  Inl e \<Rightarrow> (Inl e, w1)
                | Inr (context_parts, srcs) \<Rightarrow>
                    (case groq_create env (clock w1) system_prompt
                            (user_prompt (join ''\<newline>\<newline>'' context_parts) query) of
                       Inl e \<Rightarrow> (Inl e, tick w1)
                     | Inr choices \<Rightarrow>
                         (case choices of
                            [] \<Rightarrow> (Inl (IndexError ''list index out of range''), tick w1)
                          | content # _ \<Rightarrow>
                              (Inr \<lparr>answer = content, sources = srcs, context_used = True,
                                    model = Some LLM_MODEL, error = None\<rparr>, tick w1))))))"

definition generate_answer :: "env \<Rightarrow> string \<Rightarrow> int \<Rightarrow> world \<Rightarrow> (exn + answer) \<times> world" where
  "generate_answer env query top_k w =
     (case generate_answer_try env query top_k w of
        (Inl e, w1) \<Rightarrow> (Inr (error_answer e), w1)
      | (Inr a, w1) \<Rightarrow> (Inr a, w1))"

section \<open>updater.py\<close>

text \<open>
  The dictionary returned by \<^verbatim>\<open>fetch_page_text\<close>; the key \<^verbatim>\<open>error\<close> is present only
  when the fetch or the parse raised. Both \<^verbatim>\<open>except\<close> clauses return the same dictionary.
\<close>

record page_data =
  page_url :: string
  page_text :: string
  page_title :: pyval
  page_error :: "string option"

definition fetch_page_text :: "env \<Rightarrow> string \<Rightarrow> world \<Rightarrow> page_data \<times> world" where
  "fetch_page_text env url w =
     (case get_soup env (clock w) url of
        Inl e \<Rightarrow>
          (\<lparr>page_url = url, page_text = '''', page_title = PyStr '''',
            page_error = Some (str_exn e)\<rparr>, tick w)
      | Inr sp \<Rightarrow>
          (let ttl = (case title sp of
                        None \<Rightarrow> PyStr url
                      | Some None \<Rightarrow> PyNone
                      | Some (Some s) \<Rightarrow> PyStr s);
               text_parts = filter (\<lambda>t. t \<noteq> [] \<and> 20 < length t) (map strip (elements sp));
               text_parts' = (if text_parts = [] then [all_text sp] else text_parts);
               full_text = join ''\<newline>\<newline>'' text_parts';
               full_text' = join '' '' (split full_text)
           in (\<lparr>page_url = url, page_text = full_text', page_title = ttl,
                page_error = None\<rparr>, tick w)))"

text \<open>
  The summary returned by \<^verbatim>\<open>update_from_urls\<close> and the entries of its \<^verbatim>\<open>details\<close>:
  \<^verbatim>\<open>url\<close> and \<^verbatim>\<open>status\<close>, with \<^verbatim>\<open>chunks\<close>, \<^verbatim>\<open>error\<close> or \<^verbatim>\<open>reason\<close> by status.
\<close>

record detail =
  detail_url :: string
  detail_status :: string
  detail_chunks :: "int option"
  detail_error :: "string option"
  detail_reason :: "string option"

record summary =
  total_urls :: nat
  successful :: nat
  failed :: nat
  total_chunks :: int
  details :: "detail list"

text \<open>
  One pass of the loop body for one URL (\<^verbatim>\<open>time.sleep\<close> has no effect on the result).
  \<^verbatim>\<open>add_document\<close> is called with the default batch size.
\<close>

definition process_url :: "env \<Rightarrow> string \<Rightarrow> summary \<Rightarrow> world \<Rightarrow> summary \<times> world" where
  "process_url env url results w =
     (case fetch_page_text env url w of
        (pd, w1) \<Rightarrow>
          if page_text pd \<noteq> [] \<and> 100 < length (page_text pd) then
            (case add_document env (page_text pd)
                    (Some [''source'' \<mapsto> PyStr url, ''title'' \<mapsto> page_title pd,
                           ''type'' \<mapsto> PyStr ''web_page'']) 10 w1 of
               (Inr chunks_added, w2) \<Rightarrow>
                 (results\<lparr>successful := successful results + 1,
                          total_chunks := total_chunks results + chunks_added,
                          details := details results @
                            [\<lparr>detail_url = url, detail_status = ''success'', detail_chunks = Some chunks_added,
                              detail_error = None, detail_reason = None\<rparr>]\<rparr>, w2)
             | (Inl e, w2) \<Rightarrow>
                 (results\<lparr>failed := failed results + 1,
                          details := details results @
                            [\<lparr>detail_url = url, detail_status = ''failed'', detail_chunks = None,
                              detail_error = Some (str_exn e), detail_reason = None\<rparr>]\<rparr>, w2))
          else
            (results\<lparr>failed := failed results + 1,
                     details := details results @
                       [\<lparr>detail_url = url, detail_status = ''skipped'', detail_chunks = None,
                         detail_error = None, detail_reason = Some ''insufficient_content''\<rparr>]\<rparr>, w1))"

fun url_loop :: "env \<Rightarrow> string list \<Rightarrow> summary \<Rightarrow> world \<Rightarrow> summary \<times> world" where
  "url_loop env [] results w = (results, w)"
| "url_loop env (url # urls) results w =
     (case process_url env url results w of
        (results', w1) \<Rightarrow> url_loop env urls results' w1)"

text \<open>\<^verbatim>\<open>init_collection()\<close> is called outside any \<^verbatim>\<open>try\<close>: its exception is the result.\<close>

definition update_from_urls :: "env \<Rightarrow> string list \<Rightarrow> world \<Rightarrow> (exn + summary) \<times> world" where
  "update_from_urls env urls w =
     (case init_collection env w of
        (Inl e, w1) \<Rightarrow> (Inl e, w1)
      | (Inr u, w1) \<Rightarrow>
          (case url_loop env urls
                  \<lparr>total_urls = length urls, successful = 0, failed = 0, total_chunks = 0,
                    details = []\<rparr> w1 of
             (results, w2) \<Rightarrow> (Inr results, w2)))"

definition update_single_url :: "env \<Rightarrow> string \<Rightarrow> world \<Rightarrow> (exn + summary) \<times> world" where
  "update_single_url env url w = update_from_urls env [url] w"







section \<open>pdf_loader.py\<close>

text \<open>
  The dictionary returned by \<^verbatim>\<open>load_pdf\<close>: \<^verbatim>\<open>status\<close>, and either \<^verbatim>\<open>error\<close> or the keys
  \<^verbatim>\<open>file\<close>, \<^verbatim>\<open>pages\<close>, \<^verbatim>\<open>chunks_added\<close> and \<^verbatim>\<open>text_length\<close>.
\<close>

record pdf_result =
  pdf_status :: string
  pdf_error :: "string option"
  pdf_file :: "string option"
  pdf_pages :: "nat option"
  pdf_chunks_added :: "int option"
  pdf_text_length :: "nat option"

definition pdf_failed :: "string \<Rightarrow> pdf_result" where
  "pdf_failed msg =
     \<lparr>pdf_status = ''failed'', pdf_error = Some msg, pdf_file = None, pdf_pages = None,
      pdf_chunks_added = None, pdf_text_length = None\<rparr>"

text \<open>\<^verbatim>\<open>os.path.basename\<close>: what follows the last slash.\<close>

definition basename :: "string \<Rightarrow> string" where
  "basename p = rev (takeWhile (\<lambda>c. c \<noteq> CHR ''/'') (rev p))"

text \<open>
  The loop over \<^verbatim>\<open>reader.pages\<close>: a page whose text is empty is left out, and an exception
  of \<^verbatim>\<open>extract_text\<close> ends the loop.
\<close>

fun extract_pages :: "(exn + string) list \<Rightarrow> exn + string list" where
  "extract_pages [] = Inr []"
| "extract_pages (Inl e # pages) = Inl e"
| "extract_pages (Inr ptext # pages) =
     (case extract_pages pages of
        Inl e \<Rightarrow> Inl e
      | Inr text_parts \<Rightarrow> Inr (if ptext \<noteq> [] then ptext # text_parts else text_parts))"

definition load_pdf_try :: "env \<Rightarrow> string \<Rightarrow> world \<Rightarrow> (exn + pdf_result) \<times> world" where
  "load_pdf_try env file_path w =
     (case init_collection env w of
        (Inl e, w1) \<Rightarrow> (Inl e, w1)
      | (Inr u, w1) \<Rightarrow>
          if \<not> os_path_exists env (clock w1) file_path
          then (Inr (pdf_failed (''File not found: '' @ file_path)), tick w1)
          else (case PdfReader env (clock (tick w1)) file_path of
                  Inl e \<Rightarrow> (Inl e, tick (tick w1))
                | Inr pages \<Rightarrow>
                    (case extract_pages pages of
                       Inl e \<Rightarrow> (Inl e, tick (tick w1))
                     | Inr text_parts \<Rightarrow>
                         (let full_text = join ''\<newline>\<newline>'' text_parts in
                          if full_text = [] \<or> length full_text < 100
                          then (Inr (pdf_failed ''Insufficient text extracted from PDF''),
                                tick (tick w1))
                          else (case add_document env full_text
                                       (Some [''source'' \<mapsto> PyStr (basename file_path),
                                              ''type'' \<mapsto> PyStr ''pdf'',
                                              ''pages'' \<mapsto> PyInt (int (length pages)),
                                              ''file_path'' \<mapsto> PyStr file_path]) 10
                                       (tick (tick w1)) of
                                  (Inl e, w2) \<Rightarrow> (Inl e, w2)
                                | (Inr n, w2) \<Rightarrow>
                                    (Inr \<lparr>pdf_status = ''success'', pdf_error = None,
                                          pdf_file = Some file_path,
                                          pdf_pages = Some (length pages),
                                          pdf_chunks_added = Some n,
                                          pdf_text_length = Some (length full_text)\<rparr>, w2))))))"

definition load_pdf :: "env \<Rightarrow> string \<Rightarrow> world \<Rightarrow> (exn + pdf_result) \<times> world" where
  "load_pdf env file_path w =
     (case load_pdf_try env file_path w of
        (Inl e, w1) \<Rightarrow> (Inr (pdf_failed (str_exn e)), w1)
      | (Inr r, w1) \<Rightarrow> (Inr r, w1))"

section \<open>Example worlds\<close>

text \<open>
  Concrete worlds on which the functions are evaluated below. \<open>w0\<close> is a fresh process in
  front of an empty store. In \<open>env_up\<close> every service answers: the model gives one vector
  per text, the store accepts every request and answers a search with one hit, the LLM
  returns one choice, every URL serves a page of 120 characters and every path is a PDF
  of one short page. The other worlds differ from it in one service.
\<close>

definition w0 :: world where
  "w0 = \<lparr>collections = [], points = [], embedder_loaded = False, clock = 0\<rparr>"

definition hit_payload_example :: pydict where
  "hit_payload_example =
     [''text'' \<mapsto> PyStr ''FastAPI is a web framework'', ''chunk_index'' \<mapsto> PyInt 0,
      ''source'' \<mapsto> PyStr ''FastAPI Documentation'']"

definition env_up :: env where
  "env_up =
     \<lparr>load_model = (\<lambda>t. None),
      model_encode = (\<lambda>t texts. Inr (map (\<lambda>s. [0, 1]) texts)),
      qdrant_get_collections = (\<lambda>t. None),
      qdrant_create_collection = (\<lambda>t. None),
      qdrant_upsert = (\<lambda>t pts. None),
      qdrant_search = (\<lambda>t pts v k. Inr [\<lparr>score = 1, hit_payload = Some hit_payload_example\<rparr>]),
      groq_create = (\<lambda>t sys usr. Inr [''FastAPI is a web framework [Source 1].'']),
      get_soup = (\<lambda>t url. Inr \<lparr>title = Some (Some ''Docs''), elements = [],
                                 all_text = replicate 120 (CHR ''a'')\<rparr>),
      os_path_exists = (\<lambda>t p. True),
      PdfReader = (\<lambda>t p. Inr [Inr ''A scanned page with hardly any text on it.''])\<rparr>"

definition env_store_down :: env where
  "env_store_down =
     env_up\<lparr>qdrant_search := (\<lambda>t pts v k. Inl (LibraryError ''Collection codelens_docs not found''))\<rparr>"

definition env_store_empty :: env where
  "env_store_empty = env_up\<lparr>qdrant_search := (\<lambda>t pts v k. Inr [])\<rparr>"

definition env_llm_down :: env where
  "env_llm_down = env_up\<lparr>groq_create := (\<lambda>t sys usr. Inl (LibraryError ''Connection error.''))\<rparr>"



definition metadata_clash :: pydict where
  "metadata_clash = [''source'' \<mapsto> PyStr ''manual_upload'', ''chunk_index'' \<mapsto> PyInt 7]"

definition metadata_example :: pydict where
  "metadata_example = [''source'' \<mapsto> PyStr ''FastAPI Documentation'']"



section \<open>Properties of the chunker\<close>

subsection \<open>Stripping\<close>

lemma dropWhile_rev_dropWhile:
  "dropWhile P (rev (dropWhile P (rev (dropWhile P xs)))) = rev (dropWhile P (rev (dropWhile P xs)))"
proof -
  define t where "t = dropWhile P xs"
  define u where "u = rev (dropWhile P (rev t))"
  have "dropWhile P u = u"
  proof (cases u)
    case Nil
    then show ?thesis by simp
  next
    case (Cons y ys)
    then have "t \<noteq> []" unfolding u_def by auto
    then have nh: "\<not> P (hd t)" unfolding t_def by (metis hd_dropWhile)
    have "\<exists>zs. t = u @ zs"
      unfolding u_def by (metis rev_append rev_rev_ident takeWhile_dropWhile_id)
    then obtain zs where "t = (y # ys) @ zs" using Cons by metis
    then have "hd t = y" by simp
    with nh have "\<not> P y" by simp
    then show ?thesis using Cons by simp
  qed
  then show ?thesis by (simp add: u_def t_def)
qed

lemma strip_idem: "strip (strip s) = strip s"
  by (simp add: strip_def dropWhile_rev_dropWhile dropWhile_idem)

lemma strip_length: "length (strip s) \<le> length s"
proof -
  have "length (strip s) \<le> length (dropWhile isspace s)"
    unfolding strip_def by (metis length_dropWhile_le length_rev)
  also have "\<dots> \<le> length s" by (rule length_dropWhile_le)
  finally show ?thesis .
qed

lemma strip_Nil_iff: "strip s = [] \<longleftrightarrow> (\<forall>c\<in>set s. isspace c)"
proof
  assume "strip s = []"
  then have "dropWhile isspace (rev (dropWhile isspace s)) = []" by (simp add: strip_def)
  then have "\<forall>c\<in>set (rev (dropWhile isspace s)). isspace c" by (simp add: dropWhile_eq_Nil_conv)
  then have a: "\<forall>c\<in>set (dropWhile isspace s). isspace c" by simp
  show "\<forall>c\<in>set s. isspace c"
  proof (cases "dropWhile isspace s")
    case Nil
    then show ?thesis by (simp add: dropWhile_eq_Nil_conv)
  next
    case (Cons y ys)
    then have "\<not> isspace y" by (metis hd_dropWhile list.sel(1) list.distinct(1))
    with a Cons show ?thesis by simp
  qed
next
  assume "\<forall>c\<in>set s. isspace c"
  then have "dropWhile isspace s = []" by simp
  then show "strip s = []" unfolding strip_def by (simp only: rev.simps dropWhile.simps)
qed

lemma strip_hd: "strip s \<noteq> [] \<Longrightarrow> \<not> isspace (hd (strip s))"
proof -
  assume ne: "strip s \<noteq> []"
  have "dropWhile isspace (strip s) = strip s"
    unfolding strip_def by (rule dropWhile_rev_dropWhile)
  then show ?thesis using ne by (metis hd_dropWhile)
qed

lemma strip_last: "strip s \<noteq> [] \<Longrightarrow> \<not> isspace (last (strip s))"
proof -
  assume ne: "strip s \<noteq> []"
  define r where "r = dropWhile isspace (rev (dropWhile isspace s))"
  have s: "strip s = rev r" by (simp add: strip_def r_def)
  with ne have "r \<noteq> []" by simp
  then have "\<not> isspace (hd r)" unfolding r_def by (metis hd_dropWhile)
  moreover have "last (rev r) = hd r" using \<open>r \<noteq> []\<close> by (simp add: last_rev)
  ultimately show ?thesis using s by simp
qed

subsection \<open>The loop and the windows\<close>

lemma chunk_loop_windows:
  "overlap < chunk_size \<Longrightarrow>
   chunk_loop tx chunk_size overlap start chunks =
     chunks @ filter (\<lambda>c. c \<noteq> [])
       (map (\<lambda>s. strip (window tx chunk_size s))
            (window_starts (int (length tx)) (chunk_size - overlap) start))"
proof (induction tx chunk_size overlap start chunks rule: chunk_loop.induct)
  case (1 tx chunk_size overlap start chunks)
  show ?case
  proof (cases "start < int (length tx)")
    case False
    then show ?thesis
      by (simp add: chunk_loop.simps [of tx chunk_size overlap start chunks]
            window_starts.simps [of "int (length tx)" "chunk_size - overlap" start])
  next
    case True
    note IH = "1.IH" [OF True refl refl refl, simplified]
    from True "1.prems" show ?thesis
      by (simp add: chunk_loop.simps [of tx chunk_size overlap start chunks]
            window_starts.simps [of "int (length tx)" "chunk_size - overlap" start]
            IH window_def Let_def)
  qed
qed

lemma window_starts_bounds:
  "s \<in> set (window_starts n step start) \<Longrightarrow> start \<le> s \<and> s < n"
proof (induction n step start rule: window_starts.induct)
  case (1 n step start)
  show ?case
  proof (cases "0 < step \<and> start < n")
    case False
    with "1.prems" show ?thesis by (simp add: window_starts.simps [of n step start])
  next
    case True
    with "1.prems" have "s = start \<or> s \<in> set (window_starts n step (start + step))"
      by (simp add: window_starts.simps [of n step start])
    then show ?thesis using True "1.IH" [OF True] by auto
  qed
qed

lemma window_length:
  "0 \<le> start \<Longrightarrow> 0 \<le> chunk_size \<Longrightarrow> int (length (window tx chunk_size start)) \<le> chunk_size"
  by (auto simp: window_def py_slice_def adjust_index_def Let_def min_def)

lemma window_subset: "set (window tx chunk_size start) \<subseteq> set tx"
  unfolding window_def py_slice_def Let_def
  by (meson set_take_subset set_drop_subset subset_trans)

lemma drop_take_drop:
  "k \<le> m \<Longrightarrow> drop k (take m ys) @ drop m ys = drop k ys"
proof (cases "m \<le> length ys")
  case True
  assume "k \<le> m"
  have "drop k ys = drop k (take m ys @ drop m ys)" by simp
  also have "\<dots> = drop k (take m ys) @ drop (k - length (take m ys)) (drop m ys)"
    by (simp only: drop_append)
  also have "k - length (take m ys) = 0" using True \<open>k \<le> m\<close> by simp
  finally show ?thesis by simp
next
  case False
  then show ?thesis by simp
qed

lemma drop_window:
  "0 \<le> start \<Longrightarrow> 0 \<le> overlap \<Longrightarrow> overlap < chunk_size \<Longrightarrow> start < int (length tx) \<Longrightarrow>
   drop (nat overlap) (window tx chunk_size start) @ drop (nat (start + chunk_size)) tx
     = drop (nat (start + overlap)) tx"
proof -
  assume a: "0 \<le> start" "0 \<le> overlap" "overlap < chunk_size" "start < int (length tx)"
  have w: "window tx chunk_size start = take (nat chunk_size) (drop (nat start) tx)"
    using a by (auto simp: window_def py_slice_def adjust_index_def Let_def min_def nat_add_distrib)
  have le: "nat overlap \<le> nat chunk_size" using a by simp
  have "drop (nat overlap) (take (nat chunk_size) (drop (nat start) tx))
        @ drop (nat chunk_size) (drop (nat start) tx) = drop (nat overlap) (drop (nat start) tx)"
    by (rule drop_take_drop [OF le])
  then show ?thesis using a w by (simp add: nat_add_distrib add.commute)
qed

lemma portions_from:
  "0 \<le> start \<Longrightarrow> 0 \<le> overlap \<Longrightarrow> overlap < chunk_size \<Longrightarrow>
   concat (map (\<lambda>s. drop (nat overlap) (window tx chunk_size s))
               (window_starts (int (length tx)) (chunk_size - overlap) start))
     = drop (nat (start + overlap)) tx"
proof (induction "int (length tx)" "chunk_size - overlap" start rule: window_starts.induct)
  case (1 start)
  show ?case
  proof (cases "start < int (length tx)")
    case False
    with "1.prems" show ?thesis
      by (simp add: window_starts.simps [of "int (length tx)" "chunk_size - overlap" start])
  next
    case True
    have step: "0 < chunk_size - overlap \<and> start < int (length tx)"
      using True "1.prems" by simp
    have nn: "0 \<le> start + (chunk_size - overlap)" using "1.prems" by simp
    have IH: "concat (map (\<lambda>s. drop (nat overlap) (window tx chunk_size s))
               (window_starts (int (length tx)) (chunk_size - overlap) (start + (chunk_size - overlap))))
           = drop (nat (start + chunk_size)) tx"
      using "1.hyps" [OF step nn "1.prems"(2) "1.prems"(3)] by simp
    show ?thesis
      using step IH drop_window [OF "1.prems"(1) "1.prems"(2) "1.prems"(3) True]
      by (simp add: window_starts.simps [of "int (length tx)" "chunk_size - overlap" start])
  qed
qed

lemma portions_whole:
  assumes "0 \<le> overlap" "overlap < chunk_size"
  shows "concat (unique_portions (nat overlap)
           (map (window tx chunk_size) (window_starts (int (length tx)) (chunk_size - overlap) 0))) = tx"
proof (cases "tx = []")
  case True
  then show ?thesis
    by (simp add: window_starts.simps [of 0 "chunk_size - overlap" 0])
next
  case False
  have w0: "window tx chunk_size 0 = take (nat chunk_size) tx"
    using assms by (auto simp: window_def py_slice_def adjust_index_def Let_def min_def)
  have nn: "0 \<le> chunk_size - overlap" using assms by simp
  have rest: "concat (map (\<lambda>s. drop (nat overlap) (window tx chunk_size s))
               (window_starts (int (length tx)) (chunk_size - overlap) (chunk_size - overlap)))
           = drop (nat chunk_size) tx"
    using portions_from [OF nn assms(1) assms(2), of tx] by simp
  have st: "window_starts (int (length tx)) (chunk_size - overlap) 0
        = 0 # window_starts (int (length tx)) (chunk_size - overlap) (chunk_size - overlap)"
    using False assms by (simp add: window_starts.simps [of "int (length tx)" "chunk_size - overlap" 0])
  show ?thesis
    by (simp add: st w0 rest map_map comp_def)
qed

lemma windows_cover:
  assumes "0 \<le> overlap" "overlap < chunk_size" "c \<in> set tx"
  shows "\<exists>s\<in>set (window_starts (int (length tx)) (chunk_size - overlap) 0). c \<in> set (window tx chunk_size s)"
proof -
  let ?ws = "map (window tx chunk_size) (window_starts (int (length tx)) (chunk_size - overlap) 0)"
  have sub: "set (concat (unique_portions k ws)) \<subseteq> set (concat ws)" for k :: nat and ws :: "string list"
    by (cases ws) (auto dest: in_set_dropD)
  have "c \<in> set (concat (unique_portions (nat overlap) ?ws))"
    using portions_whole [OF assms(1) assms(2), of tx] assms(3) by simp
  then have "c \<in> set (concat ?ws)" using sub by blast
  then show ?thesis by auto
qed

lemma chunk_text_windows:
  "overlap < chunk_size \<Longrightarrow>
   chunk_text tx chunk_size overlap =
     filter (\<lambda>c. c \<noteq> [])
       (map (\<lambda>s. strip (window tx chunk_size s))
            (window_starts (int (length tx)) (chunk_size - overlap) 0))"
  by (simp add: chunk_text_def chunk_loop_windows window_starts.simps [of 0 "chunk_size - overlap" 0])

lemma chunk_loop_stripped:
  "c \<in> set (chunk_loop tx chunk_size overlap start chunks) \<Longrightarrow>
   c \<in> set chunks \<or> (c \<noteq> [] \<and> strip c = c)"
proof (induction tx chunk_size overlap start chunks rule: chunk_loop.induct)
  case (1 tx chunk_size overlap start chunks)
  show ?case
  proof (cases "start < int (length tx)")
    case False
    with "1.prems" show ?thesis
      by (simp add: chunk_loop.simps [of tx chunk_size overlap start chunks])
  next
    case True
    define chunk where "chunk = strip (py_slice tx start (min (start + chunk_size) (int (length tx))))"
    define chunks' where "chunks' = (if chunk \<noteq> [] then chunks @ [chunk] else chunks)"
    have new: "x \<in> set chunks' \<Longrightarrow> x \<in> set chunks \<or> (x \<noteq> [] \<and> strip x = x)" for x
      by (auto simp: chunks'_def chunk_def strip_idem split: if_splits)
    show ?thesis
    proof (cases "chunk_size \<le> overlap")
      case le: True
      have "chunk_loop tx chunk_size overlap start chunks = chunks'"
        using True le
        by (simp add: chunk_loop.simps [of tx chunk_size overlap start chunks] Let_def chunks'_def chunk_def)
      with "1.prems" have "c \<in> set chunks'" by simp
      then show ?thesis by (rule new)
    next
      case gt: False
      have "chunk_loop tx chunk_size overlap start chunks
              = chunk_loop tx chunk_size overlap (start + (chunk_size - overlap)) chunks'"
        using True gt
        by (simp add: chunk_loop.simps [of tx chunk_size overlap start chunks] Let_def chunks'_def chunk_def)
      with "1.prems"
      have "c \<in> set (chunk_loop tx chunk_size overlap (start + (chunk_size - overlap)) chunks')"
        by simp
      then have "c \<in> set chunks' \<or> (c \<noteq> [] \<and> strip c = c)"
        using "1.IH" [OF True refl refl refl gt] unfolding chunks'_def chunk_def by simp
      then show ?thesis using new by blast
    qed
  qed
qed

lemma chunk_loop_once:
  "chunk_size \<le> overlap \<Longrightarrow> start < int (length tx) \<Longrightarrow>
   chunk_loop tx chunk_size overlap start chunks =
     (if strip (window tx chunk_size start) \<noteq> [] then chunks @ [strip (window tx chunk_size start)] else chunks)"
  by (simp add: chunk_loop.simps [of tx chunk_size overlap start chunks] Let_def window_def)

lemma window_starts_length:
  "0 \<le> start \<Longrightarrow> length (window_starts n step start) \<le> nat (n - start)"
proof (induction n step start rule: window_starts.induct)
  case (1 n step start)
  show ?case
  proof (cases "0 < step \<and> start < n")
    case False
    then have "window_starts n step start = []"
      by (subst window_starts.simps) auto
    then show ?thesis by simp
  next
    case True
    have "0 \<le> start + step" using True "1.prems" by simp
    from "1.IH" [OF True this]
    have "length (window_starts n step (start + step)) \<le> nat (n - (start + step))" .
    moreover have "Suc (nat (n - (start + step))) \<le> nat (n - start)" using True by linarith
    ultimately have "Suc (length (window_starts n step (start + step))) \<le> nat (n - start)"
      by linarith
    then show ?thesis using True
      by (simp add: window_starts.simps [of n step start])
  qed
qed

lemma window_starts_nth:
  "i < length (window_starts n step start) \<Longrightarrow>
   window_starts n step start ! i = start + int i * step"
proof (induction n step start arbitrary: i rule: window_starts.induct)
  case (1 n step start)
  show ?case
  proof (cases "0 < step \<and> start < n")
    case False
    then have "window_starts n step start = []"
      by (subst window_starts.simps) auto
    with "1.prems" show ?thesis by simp
  next
    case True
    then have ws: "window_starts n step start = start # window_starts n step (start + step)"
      by (subst window_starts.simps) simp
    show ?thesis
    proof (cases i)
      case 0
      then show ?thesis using ws by simp
    next
      case (Suc k)
      then have "k < length (window_starts n step (start + step))"
        using "1.prems" ws by simp
      from "1.IH" [OF True this] show ?thesis
        using ws Suc by (simp add: algebra_simps)
    qed
  qed
qed

lemma window_starts_end:
  "0 < step \<Longrightarrow> n \<le> start + int (length (window_starts n step start)) * step"
proof (induction n step start rule: window_starts.induct)
  case (1 n step start)
  show ?case
  proof (cases "0 < step \<and> start < n")
    case False
    then have "window_starts n step start = []"
      by (subst window_starts.simps) auto
    with False "1.prems" show ?thesis by simp
  next
    case True
    then have ws: "window_starts n step start = start # window_starts n step (start + step)"
      by (subst window_starts.simps) simp
    from "1.IH" [OF True "1.prems"] show ?thesis
      using ws by (simp add: algebra_simps)
  qed
qed

subsection \<open>Claims about \<open>chunk_text\<close>\<close>

text \<open>
  The statement of C1 fails in two places. A text of whitespace only is non-empty and yields
  no chunk, because \<^verbatim>\<open>if chunk:\<close> drops a window that is empty after stripping. And the
  chunks themselves do not rebuild the text: stripping shifts a chunk against its window, so
  cutting the first \<open>overlap\<close> characters off each later chunk cuts the wrong characters.
  For \<^verbatim>\<open>"ab  cd"\<close> with windows of 3 overlapping by 1 the chunks give \<^verbatim>\<open>"abd"\<close>, which
  lacks the \<^verbatim>\<open>c\<close> of the text whatever is done to whitespace.
\<close>

theorem chunk_text_claim_counterexample:
  "chunk_text '' '' 800 100 = []
   \<and> chunk_text ''ab  cd'' 3 1 = [''ab'', ''c'', ''cd'']
   \<and> remove_ws (concat (unique_portions 1 (chunk_text ''ab  cd'' 3 1))) = ''abd''
   \<and> remove_ws ''ab  cd'' = ''abcd''"
  by code_simp

text \<open>
  C1, amended. For every text and \<open>chunk_size > overlap \<ge> 0\<close>: the result of \<open>chunk_text\<close>
  is, in order, the stripped form of every window of the text at the offsets
  \<open>0, step, 2 * step, \<dots>\<close> below the length of the text, with
  \<open>step = chunk_size - overlap\<close>, the windows that are empty after stripping left out; the unique portions of these windows, concatenated, are the
  text itself; the result is non-empty exactly when the text has a character that is not
  whitespace; and no chunk is longer than \<open>chunk_size\<close>.
\<close>

theorem chunk_text_windows_reconstruct:
  assumes "0 \<le> overlap" and "overlap < chunk_size"
  shows "chunk_text tx chunk_size overlap =
           filter (\<lambda>c. c \<noteq> [])
             (map (\<lambda>s. strip (window tx chunk_size s))
                  (window_starts (int (length tx)) (chunk_size - overlap) 0))
       \<and> concat (unique_portions (nat overlap)
             (map (window tx chunk_size)
                  (window_starts (int (length tx)) (chunk_size - overlap) 0))) = tx
       \<and> (chunk_text tx chunk_size overlap \<noteq> [] \<longleftrightarrow> (\<exists>c\<in>set tx. \<not> isspace c))
       \<and> (\<forall>c\<in>set (chunk_text tx chunk_size overlap). int (length c) \<le> chunk_size)
       \<and> (\<forall>i<length (window_starts (int (length tx)) (chunk_size - overlap) 0).
              window_starts (int (length tx)) (chunk_size - overlap) 0 ! i
                = int i * (chunk_size - overlap)
            \<and> int i * (chunk_size - overlap) < int (length tx))
       \<and> int (length tx)
            \<le> int (length (window_starts (int (length tx)) (chunk_size - overlap) 0))
                * (chunk_size - overlap)"
proof -
  let ?starts = "window_starts (int (length tx)) (chunk_size - overlap) 0"
  have eq: "chunk_text tx chunk_size overlap =
      filter (\<lambda>c. c \<noteq> []) (map (\<lambda>s. strip (window tx chunk_size s)) ?starts)"
    by (rule chunk_text_windows [OF assms(2)])
  have whole: "concat (unique_portions (nat overlap) (map (window tx chunk_size) ?starts)) = tx"
    by (rule portions_whole [OF assms])
  have ne: "chunk_text tx chunk_size overlap \<noteq> [] \<longleftrightarrow> (\<exists>c\<in>set tx. \<not> isspace c)"
  proof
    assume "chunk_text tx chunk_size overlap \<noteq> []"
    then obtain c where "c \<in> set (chunk_text tx chunk_size overlap)"
      by (cases "chunk_text tx chunk_size overlap") auto
    then obtain s where "strip (window tx chunk_size s) \<noteq> []"
      unfolding eq by auto
    then obtain x where "x \<in> set (window tx chunk_size s)" "\<not> isspace x"
      by (auto simp: strip_Nil_iff)
    then show "\<exists>c\<in>set tx. \<not> isspace c"
      using window_subset [of tx chunk_size s] by blast
  next
    assume "\<exists>c\<in>set tx. \<not> isspace c"
    then obtain x where x: "x \<in> set tx" "\<not> isspace x" by blast
    from windows_cover [OF assms x(1)]
    obtain s where s: "s \<in> set ?starts" "x \<in> set (window tx chunk_size s)" by blast
    then have "strip (window tx chunk_size s) \<noteq> []"
      using x(2) by (auto simp: strip_Nil_iff)
    then have "strip (window tx chunk_size s) \<in> set (chunk_text tx chunk_size overlap)"
      unfolding eq using s(1) by auto
    then show "chunk_text tx chunk_size overlap \<noteq> []" by auto
  qed
  have len: "\<forall>c\<in>set (chunk_text tx chunk_size overlap). int (length c) \<le> chunk_size"
  proof
    fix c assume "c \<in> set (chunk_text tx chunk_size overlap)"
    then obtain s where s: "s \<in> set ?starts" "c = strip (window tx chunk_size s)"
      unfolding eq by auto
    have "0 \<le> s" using window_starts_bounds [OF s(1)] by simp
    moreover have "0 \<le> chunk_size" using assms by simp
    ultimately have "int (length (window tx chunk_size s)) \<le> chunk_size"
      by (rule window_length)
    moreover have "length c \<le> length (window tx chunk_size s)"
      unfolding s(2) by (rule strip_length)
    ultimately show "int (length c) \<le> chunk_size" by linarith
  qed
  have offs: "\<forall>i<length ?starts. ?starts ! i = int i * (chunk_size - overlap)
            \<and> int i * (chunk_size - overlap) < int (length tx)"
  proof (intro allI impI)
    fix i assume i: "i < length ?starts"
    have v: "?starts ! i = int i * (chunk_size - overlap)"
      using window_starts_nth [OF i] by simp
    have "?starts ! i \<in> set ?starts" using i by simp
    from window_starts_bounds [OF this] v
    show "?starts ! i = int i * (chunk_size - overlap)
            \<and> int i * (chunk_size - overlap) < int (length tx)"
      by simp
  qed
  have stop: "int (length tx) \<le> int (length ?starts) * (chunk_size - overlap)"
    using window_starts_end [of "chunk_size - overlap" "int (length tx)" 0] assms by simp
  from eq whole ne len offs stop show ?thesis by blast
qed

theorem chunk_text_windows_reconstruct_witness:
  "(0::int) \<le> 1 \<and> (1::int) < 3
   \<and> chunk_text ''ab  cd'' 3 1 = [''ab'', ''c'', ''cd'']
   \<and> map (window ''ab  cd'' 3) (window_starts 6 2 0) = [''ab '', ''  c'', ''cd'']
   \<and> concat (unique_portions 1 (map (window ''ab  cd'' 3) (window_starts 6 2 0))) = ''ab  cd''
   \<and> chunk_text ''ab  cd'' 3 1 \<noteq> []"
proof -
  have h1: "(0::int) \<le> 1" and h2: "(1::int) < 3" by simp_all
  have ev: "chunk_text ''ab  cd'' 3 1 = [''ab'', ''c'', ''cd'']"
    "map (window ''ab  cd'' 3) (window_starts 6 2 0) = [''ab '', ''  c'', ''cd'']"
    by code_simp+
  note inst = chunk_text_windows_reconstruct [OF h1 h2, of "''ab  cd''"]
  from inst have "concat (unique_portions (nat 1)
      (map (window ''ab  cd'' 3) (window_starts (int (length ''ab  cd'')) (3 - 1) 0))) = ''ab  cd''"
    by blast
  then have whole: "concat (unique_portions 1
      (map (window ''ab  cd'' 3) (window_starts 6 2 0))) = ''ab  cd''"
    by simp
  have "\<exists>c\<in>set ''ab  cd''. \<not> isspace c" by code_simp
  with inst have ne: "chunk_text ''ab  cd'' 3 1 \<noteq> []"
    by blast
  from h1 h2 ev whole ne show ?thesis by blast
qed

text \<open>
  With \<open>overlap \<ge> chunk_size\<close> the loop body runs once, but the one window may be empty
  after stripping: \<^verbatim>\<open>chunk_text(" a", 1, 1)\<close> returns no chunk at all.
\<close>

theorem chunk_text_overlap_counterexample:
  "chunk_text '' a'' 1 1 = [] \<and> length (chunk_text '' a'' 1 1) \<noteq> 1"
  by code_simp

text \<open>
  C2, amended. \<open>chunk_text\<close> is a total function (the termination proof of \<open>chunk_loop\<close>
  covers every text and every pair of integers), and it returns at most as many chunks as
  the text has characters. When \<open>overlap \<ge> chunk_size\<close> it returns at most one chunk: the
  stripped first window if the text is non-empty and that window is not all whitespace,
  and nothing otherwise.
\<close>

theorem chunk_text_finite_single:
  "length (chunk_text tx chunk_size overlap) \<le> length tx
   \<and> (chunk_size \<le> overlap \<longrightarrow>
        chunk_text tx chunk_size overlap =
          (if tx \<noteq> [] \<and> strip (window tx chunk_size 0) \<noteq> []
           then [strip (window tx chunk_size 0)] else []))"
proof -
  have one: "chunk_text tx chunk_size overlap =
          (if tx \<noteq> [] \<and> strip (window tx chunk_size 0) \<noteq> []
           then [strip (window tx chunk_size 0)] else [])" if "chunk_size \<le> overlap"
    using that by (simp add: chunk_text_def chunk_loop_once)
  have "length (chunk_text tx chunk_size overlap) \<le> length tx"
  proof (cases "chunk_size \<le> overlap")
    case True
    show ?thesis unfolding one [OF True] by (cases tx) auto
  next
    case False
    then have lt: "overlap < chunk_size" by simp
    have "length (chunk_text tx chunk_size overlap)
          \<le> length (window_starts (int (length tx)) (chunk_size - overlap) 0)"
      unfolding chunk_text_windows [OF lt]
      by (metis length_filter_le length_map)
    also have "\<dots> \<le> nat (int (length tx) - 0)"
      by (rule window_starts_length) simp
    finally show ?thesis by simp
  qed
  with one show ?thesis by blast
qed

theorem chunk_text_finite_single_witness:
  "(1::int) \<le> 1 \<and> chunk_text ''ab cd'' 1 1 = [''a''] \<and> length (chunk_text ''ab cd'' 1 1) \<le> 5"
proof -
  have ev: "strip (window ''ab cd'' 1 0) = ''a''" by code_simp
  show ?thesis
    using chunk_text_finite_single [of "''ab cd''" 1 1] ev by simp
qed

text \<open>
  C10. Every chunk returned by \<open>chunk_text\<close>, for every text, chunk size and overlap, is
  non-empty and equal to its own stripped form: it neither starts nor ends with whitespace.
\<close>

theorem chunk_text_chunks_stripped:
  "c \<in> set (chunk_text tx chunk_size overlap) \<Longrightarrow>
   c \<noteq> [] \<and> strip c = c \<and> \<not> isspace (hd c) \<and> \<not> isspace (last c)"
proof -
  assume "c \<in> set (chunk_text tx chunk_size overlap)"
  then have "c \<in> set (chunk_loop tx chunk_size overlap 0 [])"
    by (simp add: chunk_text_def split: if_splits)
  then have c: "c \<noteq> []" "strip c = c"
    using chunk_loop_stripped [of c tx chunk_size overlap 0 "[]"] by simp_all
  then have "strip c \<noteq> []" by simp
  then have "\<not> isspace (hd (strip c))" "\<not> isspace (last (strip c))"
    by (rule strip_hd, rule strip_last)
  with c show ?thesis by simp
qed

theorem chunk_text_chunks_stripped_witness:
  "''c'' \<in> set (chunk_text ''ab  cd'' 3 1) \<and> strip ''c'' = ''c''"
proof -
  have ev: "chunk_text ''ab  cd'' 3 1 = [''ab'', ''c'', ''cd'']" by code_simp
  then have m: "''c'' \<in> set (chunk_text ''ab  cd'' 3 1)" by simp
  show ?thesis using chunk_text_chunks_stripped [OF m] m by simp
qed

section \<open>Properties of the retrieval pipeline\<close>

subsection \<open>\<open>add_document\<close> on a text without chunks\<close>

text \<open>
  C3. When chunking the text gives no chunk, \<open>add_document\<close> returns 0 and the world it
  returns is the world it was given: no point is written, no collection is created, the
  embedder is not loaded and no call to the outside is made.
\<close>

theorem add_document_no_chunks:
  "chunk_text tx CHUNK_SIZE CHUNK_OVERLAP = [] \<Longrightarrow>
   add_document env tx metadata batch_size w = (Inr 0, w)"
  by (simp add: add_document_def)

theorem add_document_no_chunks_witness:
  "chunk_text ''   '' CHUNK_SIZE CHUNK_OVERLAP = []
   \<and> add_document env_up ''   '' None 10 w0 = (Inr 0, w0)"
proof -
  have h: "chunk_text ''   '' CHUNK_SIZE CHUNK_OVERLAP = []" by code_simp
  from h add_document_no_chunks [OF h, of env_up None 10 w0] show ?thesis by blast
qed

subsection \<open>\<open>search_documents\<close> and \<open>generate_answer\<close> catch every exception\<close>

text \<open>
  C5. \<open>search_documents\<close> never raises: for every query, \<open>top_k\<close>, environment and world its
  result is a list, and whenever the body of its \<^verbatim>\<open>try\<close> raises (the embedder fails to
  load or to embed, the store is unreachable or has no collection, a hit has no payload)
  that list is empty.
\<close>

theorem search_documents_never_raises:
  "\<exists>results. fst (search_documents env query top_k w) = Inr results
     \<and> (\<forall>e. fst (search_documents_try env query top_k w) = Inl e \<longrightarrow> results = [])"
  by (cases "search_documents_try env query top_k w" rule: prod.exhaust)
     (auto simp: search_documents_def split: sum.splits)

theorem search_documents_never_raises_witness:
  "fst (search_documents_try env_store_down ''What is FastAPI?'' 5 w0)
     = Inl (LibraryError ''Collection codelens_docs not found'')
   \<and> fst (search_documents env_store_down ''What is FastAPI?'' 5 w0) = Inr []"
proof -
  have raised: "fst (search_documents_try env_store_down ''What is FastAPI?'' 5 w0)
      = Inl (LibraryError ''Collection codelens_docs not found'')"
    by (simp add: search_documents_try_def get_embedder_def embed_query_def embed_text_def
          env_store_down_def env_up_def w0_def tick_def)
  from search_documents_never_raises [of env_store_down "''What is FastAPI?''" 5 w0]
  obtain results where
    r: "fst (search_documents env_store_down ''What is FastAPI?'' 5 w0) = Inr results"
    and e: "\<forall>e. fst (search_documents_try env_store_down ''What is FastAPI?'' 5 w0) = Inl e
              \<longrightarrow> results = []"
    by blast
  from e raised have "results = []" by blast
  with r raised show ?thesis by simp
qed

text \<open>
  C6. When retrieval returns no result, \<open>generate_answer\<close> returns the fixed answer: the
  insufficient-information text, an empty list of sources and \<open>context_used\<close> false.
\<close>

theorem generate_answer_no_results:
  "fst (search_documents env query top_k w) = Inr [] \<Longrightarrow>
   fst (generate_answer env query top_k w) = Inr no_information
   \<and> answer no_information =
       ''I don't have enough information to answer that question. Please update the knowledge base.''
   \<and> sources no_information = [] \<and> context_used no_information = False"
  by (cases "search_documents env query top_k w" rule: prod.exhaust)
     (simp add: generate_answer_def generate_answer_try_def no_information_def)

theorem generate_answer_no_results_witness:
  "fst (search_documents env_store_empty ''What is FastAPI?'' 3 w0) = Inr []
   \<and> fst (generate_answer env_store_empty ''What is FastAPI?'' 3 w0) = Inr no_information
   \<and> sources no_information = [] \<and> context_used no_information = False"
proof -
  have h: "fst (search_documents env_store_empty ''What is FastAPI?'' 3 w0) = Inr []"
    by (simp add: search_documents_def search_documents_try_def get_embedder_def embed_query_def
          embed_text_def env_store_empty_def env_up_def w0_def tick_def)
  from h generate_answer_no_results [OF h] show ?thesis by blast
qed

text \<open>
  C7. \<open>generate_answer\<close> never raises: for every query its result is an answer record, and
  whenever the body of its \<^verbatim>\<open>try\<close> raises an exception \<open>e\<close> (a failure of the LLM call
  among them) that record is the error answer: the text \<^verbatim>\<open>Error generating answer: \<close>
  followed by \<open>str(e)\<close>, no sources, \<open>context_used\<close> false and \<open>error\<close> set to \<open>str(e)\<close>.
\<close>

theorem generate_answer_never_raises:
  "\<exists>a. fst (generate_answer env query top_k w) = Inr a
     \<and> (\<forall>e. fst (generate_answer_try env query top_k w) = Inl e \<longrightarrow>
            a = error_answer e
          \<and> answer a = ''Error generating answer: '' @ str_exn e
          \<and> sources a = [] \<and> context_used a = False \<and> error a = Some (str_exn e))"
  by (cases "generate_answer_try env query top_k w" rule: prod.exhaust)
     (auto simp: generate_answer_def error_answer_def split: sum.splits)

theorem generate_answer_never_raises_witness:
  "fst (generate_answer_try env_llm_down ''What is FastAPI?'' 3 w0)
     = Inl (LibraryError ''Connection error.'')
   \<and> fst (generate_answer env_llm_down ''What is FastAPI?'' 3 w0)
     = Inr (error_answer (LibraryError ''Connection error.''))
   \<and> sources (error_answer (LibraryError ''Connection error.'')) = []
   \<and> context_used (error_answer (LibraryError ''Connection error.'')) = False"
proof -
  let ?e = "LibraryError ''Connection error.''"
  have raised: "fst (generate_answer_try env_llm_down ''What is FastAPI?'' 3 w0) = Inl ?e"
    by (simp add: generate_answer_try_def search_documents_def search_documents_try_def
          get_embedder_def embed_query_def embed_text_def dict_get_def hit_payload_example_def
          env_llm_down_def env_up_def w0_def tick_def)
  from generate_answer_never_raises [of env_llm_down "''What is FastAPI?''" 3 w0]
  obtain a where
    r: "fst (generate_answer env_llm_down ''What is FastAPI?'' 3 w0) = Inr a"
    and e: "\<forall>e. fst (generate_answer_try env_llm_down ''What is FastAPI?'' 3 w0) = Inl e \<longrightarrow>
            a = error_answer e
          \<and> answer a = ''Error generating answer: '' @ str_exn e
          \<and> sources a = [] \<and> context_used a = False \<and> error a = Some (str_exn e)"
    by blast
  from e raised have "a = error_answer ?e \<and> sources a = [] \<and> context_used a = False"
    by blast
  with r raised show ?thesis by auto
qed

subsection \<open>What \<open>add_document\<close> writes\<close>

lemma tick_fields [simp]:
  "points (tick w) = points w" "collections (tick w) = collections w"
  "embedder_loaded (tick w) = embedder_loaded w" "clock (tick w) = Suc (clock w)"
  by (simp_all add: tick_def)

lemma get_embedder_store:
  "get_embedder env w = (r, w') \<Longrightarrow> points w' = points w \<and> collections w' = collections w"
  by (auto simp: get_embedder_def split: if_splits option.splits)

lemma embed_text_store:
  "embed_text env texts w = (r, w') \<Longrightarrow> points w' = points w \<and> collections w' = collections w"
  by (auto simp: embed_text_def)

lemma upsert_ok:
  "upsert env pts w = (Inr u, w') \<Longrightarrow> points w' = points w @ pts \<and> collections w' = collections w"
  by (auto simp: upsert_def split: option.splits)


lemma make_points_store:
  "make_points md bs i zs w = (pts, w') \<Longrightarrow> points w' = points w \<and> collections w' = collections w"
proof (induction zs arbitrary: i w pts w')
  case Nil
  then show ?case by simp
next
  case (Cons z zs)
  obtain c v where z: "z = (c, v)" by (cases z)
  obtain pts1 w1 where r: "make_points md bs (Suc i) zs (tick w) = (pts1, w1)"
    by (cases "make_points md bs (Suc i) zs (tick w)")
  from Cons.prems z r have "w' = w1" by (simp add: uuid4_def)
  with Cons.IH [OF r] show ?case by simp
qed

lemma make_points_length:
  "make_points md bs i zs w = (pts, w') \<Longrightarrow> length pts = length zs"
proof (induction zs arbitrary: i w pts w')
  case Nil
  then show ?case by simp
next
  case (Cons z zs)
  obtain c v where z: "z = (c, v)" by (cases z)
  obtain pts1 w1 where r: "make_points md bs (Suc i) zs (tick w) = (pts1, w1)"
    by (cases "make_points md bs (Suc i) zs (tick w)")
  from Cons.prems z r have "length pts = Suc (length pts1)" by (auto simp: uuid4_def)
  with Cons.IH [OF r] show ?case by simp
qed

lemma make_points_payload:
  "make_points md bs i zs w = (pts, w') \<Longrightarrow> j < length zs \<Longrightarrow>
   payload (pts ! j) =
     [''text'' \<mapsto> PyStr (fst (zs ! j)), ''chunk_index'' \<mapsto> PyInt (bs + int (i + j))] ++ md"
proof (induction zs arbitrary: i w pts w' j)
  case Nil
  then show ?case by simp
next
  case (Cons z zs)
  obtain c v where z: "z = (c, v)" by (cases z)
  obtain pts1 w1 where r: "make_points md bs (Suc i) zs (tick w) = (pts1, w1)"
    by (cases "make_points md bs (Suc i) zs (tick w)")
  from Cons.prems(1) z r
  have pts: "pts = \<lparr>point_id = clock w, vector = v,
       payload = [''text'' \<mapsto> PyStr c, ''chunk_index'' \<mapsto> PyInt (bs + int i)] ++ md\<rparr> # pts1"
    by (auto simp: uuid4_def)
  show ?case
  proof (cases j)
    case 0
    have "payload (pts ! 0) = [''text'' \<mapsto> PyStr c, ''chunk_index'' \<mapsto> PyInt (bs + int i)] ++ md"
      unfolding pts by (simp only: nth_Cons_0 point.select_convs)
    moreover have "fst ((z # zs) ! 0) = c" "i + 0 = i" using z by simp_all
    ultimately show ?thesis unfolding 0 by (simp only:)
  next
    case (Suc k)
    then have k: "k < length zs" using Cons.prems(2) by simp
    have "pts ! j = pts1 ! k" "(z # zs) ! j = zs ! k" "Suc i + k = i + j"
      unfolding pts Suc by simp_all
    with Cons.IH [OF r k] show ?thesis by (simp only:)
  qed
qed


lemma batch_slice:
  "0 \<le> start \<Longrightarrow> start < int (length xs) \<Longrightarrow> 0 < bs \<Longrightarrow>
   py_slice xs start (min (start + bs) (int (length xs))) = take (nat bs) (drop (nat start) xs)"
  by (auto simp: py_slice_def adjust_index_def Let_def min_def nat_add_distrib)

lemma batch_loop_skip:
  "\<not> (0 < bs \<and> start < int (length cs)) \<Longrightarrow> batch_loop env md cs bs start w = (Inr (), w)"
  by (subst batch_loop.simps) auto


lemma batch_loop_indices:
  "\<forall>t ts vs. model_encode env t ts = Inr vs \<longrightarrow> length vs = length ts \<Longrightarrow>
   0 < bs \<Longrightarrow> 0 \<le> start \<Longrightarrow> batch_loop env md cs bs start w = (Inr u, w') \<Longrightarrow>
   \<exists>new. points w' = points w @ new \<and> length new = length cs - nat start \<and>
     (\<forall>j<length new. payload (new ! j) =
        [''text'' \<mapsto> PyStr (cs ! (nat start + j)), ''chunk_index'' \<mapsto> PyInt (start + int j)] ++ md)"
proof (induction env md cs bs start w arbitrary: u w' rule: batch_loop.induct)
  case (1 env md cs bs start w)
  note enc = "1.prems"(1)
  let ?batch = "py_slice cs start (min (start + bs) (int (length cs)))"
  show ?case
  proof (cases "start < int (length cs)")
    case False
    then have "\<not> (0 < bs \<and> start < int (length cs))" by simp
    from batch_loop_skip [OF this] "1.prems" have "w' = w" by simp
    moreover have "length cs - nat start = 0" using False "1.prems" by simp
    ultimately show ?thesis by simp
  next
    case lt: True
    then have True: "0 < bs \<and> start < int (length cs)" using "1.prems" by simp
    have batch: "?batch = take (nat bs) (drop (nat start) cs)"
      using batch_slice "1.prems" lt by simp
    obtain x y where e: "embed_text env ?batch w = (x, y)"
      by (cases "embed_text env ?batch w")
    have y: "points y = points w" using embed_text_store [OF e] by simp
    show ?thesis
    proof (cases x)
      case (Inl ex)
      have "batch_loop env md cs bs start w = (Inl ex, y)"
        using True e Inl by (subst batch_loop.simps) simp
      with "1.prems" show ?thesis by simp
    next
      case (Inr b)
      have "model_encode env (clock w) ?batch = Inr b"
        using e Inr by (simp add: embed_text_def)
      then have lb: "length b = length ?batch" using enc by blast
      obtain pts w2 where m: "make_points md start 0 (zip ?batch b) y = (pts, w2)"
        by (cases "make_points md start 0 (zip ?batch b) y")
      have w2: "points w2 = points w" using make_points_store [OF m] y by simp
      have lz: "length (zip ?batch b) = length ?batch" using lb by simp
      have lp: "length pts = length ?batch" using make_points_length [OF m] lz by simp
      have pl: "payload (pts ! j) =
          [''text'' \<mapsto> PyStr (cs ! (nat start + j)), ''chunk_index'' \<mapsto> PyInt (start + int j)] ++ md"
        if "j < length pts" for j
      proof -
        have j: "j < length (zip ?batch b)" using that lp lz by simp
        have "fst (zip ?batch b ! j) = ?batch ! j" using j by simp
        also have "\<dots> = cs ! (nat start + j)"
        proof -
          have "nat start \<le> length cs" using lt by simp
          moreover have "j < nat bs" using j lz unfolding batch by simp
          ultimately show ?thesis unfolding batch by (simp add: nth_drop)
        qed
        finally have "fst (zip ?batch b ! j) = cs ! (nat start + j)" .
        with make_points_payload [OF m j] show ?thesis by simp
      qed
      obtain xb w3 where up: "upsert env pts w2 = (xb, w3)"
        by (cases "upsert env pts w2")
      show ?thesis
      proof (cases xb)
        case (Inl ex)
        have "batch_loop env md cs bs start w = (Inl ex, w3)"
          using True e Inr m up Inl by (subst batch_loop.simps) simp
        with "1.prems" show ?thesis by simp
      next
        case ok: (Inr ba)
        have w3: "points w3 = points w @ pts"
          using upsert_ok [of env pts w2 ba w3] up ok w2 by simp
        have "batch_loop env md cs bs start w = batch_loop env md cs bs (start + bs) w3"
          using True e Inr m up ok by (subst batch_loop.simps) simp
        with "1.prems" have rec: "batch_loop env md cs bs (start + bs) w3 = (Inr u, w')" by simp
        have nn: "0 \<le> start + bs" using "1.prems" by simp
        from "1.IH" [OF True e [symmetric] Inr m [symmetric] up [symmetric] ok enc "1.prems"(2) nn rec]
        obtain new where new: "points w' = points w3 @ new"
          "length new = length cs - nat (start + bs)"
          "\<forall>j<length new. payload (new ! j) =
             [''text'' \<mapsto> PyStr (cs ! (nat (start + bs) + j)),
              ''chunk_index'' \<mapsto> PyInt (start + bs + int j)] ++ md"
          by blast
        have lpts: "length pts = min (nat bs) (length cs - nat start)"
          using lp unfolding batch by (simp add: min.commute)
        have nsb: "nat (start + bs) = nat start + nat bs"
          using "1.prems"(2,3) by (simp add: nat_add_distrib)
        have "min (nat bs) (length cs - nat start) + (length cs - (nat start + nat bs))
              = length cs - nat start"
          by arith
        then have len: "length (pts @ new) = length cs - nat start"
          unfolding length_append lpts new(2) nsb .
        have nth: "payload ((pts @ new) ! j) =
            [''text'' \<mapsto> PyStr (cs ! (nat start + j)), ''chunk_index'' \<mapsto> PyInt (start + int j)] ++ md"
          if j: "j < length (pts @ new)" for j
        proof (cases "j < length pts")
          case True
          then show ?thesis using pl by (simp add: nth_append)
        next
          case False
          then have jn: "j - length pts < length new" using j by simp
          have "0 < length new" using jn by linarith
          then have "nat start + nat bs < length cs" unfolding new(2) nsb by linarith
          then have full: "length pts = nat bs" using lpts by simp
          have "nat (start + bs) + (j - length pts) = nat start + j"
            "start + bs + int (j - length pts) = start + int j"
            using full False "1.prems"(2,3) nsb by simp_all
          with new(3) jn have "payload (new ! (j - length pts)) =
            [''text'' \<mapsto> PyStr (cs ! (nat start + j)), ''chunk_index'' \<mapsto> PyInt (start + int j)] ++ md"
            by (metis)
          then show ?thesis using False by (simp add: nth_append)
        qed
        have "points w' = points w @ (pts @ new)" using new(1) w3 by simp
        with len nth show ?thesis by blast
      qed
    qed
  qed
qed


lemma add_document_returns:
  "add_document env tx metadata bs w = (Inr n, w') \<Longrightarrow>
   n = int (length (chunk_text tx CHUNK_SIZE CHUNK_OVERLAP))"
  by (auto simp: add_document_def Let_def split: if_splits prod.splits sum.splits)

text \<open>
  C4, amended. Let \<open>batch_size\<close> be positive, let the metadata have no key
  \<^verbatim>\<open>chunk_index\<close>, and let the embedding model return one vector per text. When
  \<open>add_document\<close> returns \<open>n\<close>, then \<open>n\<close> is the number of chunks of the text, and the store
  has gained exactly one point per chunk, in document order across all batches, the
  \<open>i\<close>-th of them with \<^verbatim>\<open>chunk_index\<close> equal to \<open>i\<close> (and with the \<open>i\<close>-th chunk as its
  \<^verbatim>\<open>text\<close>, unless the metadata has a key \<^verbatim>\<open>text\<close>).
\<close>

theorem add_document_chunk_index:
  assumes "0 < batch_size"
    and "''chunk_index'' \<notin> dom (case metadata of None \<Rightarrow> Map.empty | Some m \<Rightarrow> m)"
    and "\<forall>t ts vs. model_encode env t ts = Inr vs \<longrightarrow> length vs = length ts"
    and "add_document env tx metadata batch_size w = (Inr n, w')"
  shows "n = int (length (chunk_text tx CHUNK_SIZE CHUNK_OVERLAP))
     \<and> (\<exists>new. points w' = points w @ new
          \<and> length new = length (chunk_text tx CHUNK_SIZE CHUNK_OVERLAP)
          \<and> (\<forall>i<length new.
                payload (new ! i) ''chunk_index'' = Some (PyInt (int i))
              \<and> (''text'' \<notin> dom (case metadata of None \<Rightarrow> Map.empty | Some m \<Rightarrow> m) \<longrightarrow>
                   payload (new ! i) ''text''
                     = Some (PyStr (chunk_text tx CHUNK_SIZE CHUNK_OVERLAP ! i)))))"
proof -
  let ?md = "case metadata of None \<Rightarrow> Map.empty | Some m \<Rightarrow> m"
  let ?cs = "chunk_text tx CHUNK_SIZE CHUNK_OVERLAP"
  have n: "n = int (length ?cs)" by (rule add_document_returns [OF assms(4)])
  have look: "([''text'' \<mapsto> PyStr c, ''chunk_index'' \<mapsto> PyInt k] ++ ?md) ''chunk_index'' = Some (PyInt k)"
    "''text'' \<notin> dom ?md \<Longrightarrow>
       ([''text'' \<mapsto> PyStr c, ''chunk_index'' \<mapsto> PyInt k] ++ ?md) ''text'' = Some (PyStr c)"
    for c k
    using assms(2) by (simp_all add: map_add_dom_app_simps)
  have "\<exists>new. points w' = points w @ new \<and> length new = length ?cs
          \<and> (\<forall>i<length new. payload (new ! i) =
                [''text'' \<mapsto> PyStr (?cs ! i), ''chunk_index'' \<mapsto> PyInt (int i)] ++ ?md)"
  proof (cases "?cs = []")
    case True
    with assms(4) have "w' = w" by (simp add: add_document_def)
    with True show ?thesis by simp
  next
    case False
    obtain x w1 where g: "get_embedder env w = (x, w1)" by (cases "get_embedder env w")
    have w1: "points w1 = points w" using get_embedder_store [OF g] by simp
    from assms(4) False g obtain u where x: "x = Inr u"
      by (cases x) (auto simp: add_document_def)
    obtain y w2 where b: "batch_loop env ?md ?cs batch_size 0 w1 = (y, w2)"
      by (cases "batch_loop env ?md ?cs batch_size 0 w1")
    from assms(1,4) False g x b have yw: "y = Inr ()" "w' = w2"
      by (auto simp: add_document_def split: sum.splits)
    have b': "batch_loop env ?md ?cs batch_size 0 w1 = (Inr (), w')" using b yw by simp
    have z: "(0::int) \<le> 0" by simp
    from batch_loop_indices [OF assms(3) assms(1) z b'] w1 show ?thesis by simp
  qed
  then obtain new where new: "points w' = points w @ new" "length new = length ?cs"
    "\<forall>i<length new. payload (new ! i) =
        [''text'' \<mapsto> PyStr (?cs ! i), ''chunk_index'' \<mapsto> PyInt (int i)] ++ ?md"
    by blast
  have "\<forall>i<length new.
                payload (new ! i) ''chunk_index'' = Some (PyInt (int i))
              \<and> (''text'' \<notin> dom ?md \<longrightarrow> payload (new ! i) ''text'' = Some (PyStr (?cs ! i)))"
    using new(3) look by simp
  with n new(1,2) show ?thesis by blast
qed

text \<open>
  The statement of C4 does not hold for every call. The keys of the metadata are merged
  into the payload last, so a metadata key \<^verbatim>\<open>chunk_index\<close> replaces the index of the
  chunk. And with a negative \<open>batch_size\<close> the range of batches is empty: nothing is
  stored, and the function still returns the number of chunks.
\<close>

theorem add_document_chunk_index_counterexample:
  "fst (add_document env_up ''FastAPI is a web framework'' (Some metadata_clash) 10 w0) = Inr 1
   \<and> length (points (snd (add_document env_up ''FastAPI is a web framework''
        (Some metadata_clash) 10 w0))) = 1
   \<and> payload (hd (points (snd (add_document env_up ''FastAPI is a web framework''
        (Some metadata_clash) 10 w0)))) ''chunk_index'' = Some (PyInt 7)
   \<and> fst (add_document env_up ''FastAPI is a web framework'' None (- 1) w0) = Inr 1
   \<and> length (points (snd (add_document env_up ''FastAPI is a web framework'' None (- 1) w0))) = 0"
  by code_simp

theorem add_document_chunk_index_witness:
  "(0::int) < 10
   \<and> fst (add_document env_up ''FastAPI is a web framework'' (Some metadata_example) 10 w0) = Inr 1
   \<and> payload (points (snd (add_document env_up ''FastAPI is a web framework''
         (Some metadata_example) 10 w0)) ! 0) ''chunk_index'' = Some (PyInt 0)
   \<and> payload (points (snd (add_document env_up ''FastAPI is a web framework''
         (Some metadata_example) 10 w0)) ! 0) ''text'' = Some (PyStr ''FastAPI is a web framework'')"
proof -
  let ?X = "add_document env_up ''FastAPI is a web framework'' (Some metadata_example) 10 w0"
  let ?md = "case Some metadata_example of None \<Rightarrow> Map.empty | Some m \<Rightarrow> m"
  have h1: "(0::int) < 10" by simp
  have h2: "''chunk_index'' \<notin> dom ?md" and t: "''text'' \<notin> dom ?md"
    by (simp_all add: metadata_example_def)
  have h3: "\<forall>t ts vs. model_encode env_up t ts = Inr vs \<longrightarrow> length vs = length ts"
    by (auto simp: env_up_def)
  have ev: "fst ?X = Inr 1" by code_simp
  then have h4: "?X = (Inr 1, snd ?X)" by (metis prod.collapse)
  have cs: "chunk_text ''FastAPI is a web framework'' CHUNK_SIZE CHUNK_OVERLAP
      = [''FastAPI is a web framework'']"
    by code_simp
  from add_document_chunk_index [OF h1 h2 h3 h4]
  obtain new where new: "points (snd ?X) = points w0 @ new"
    "length new = length (chunk_text ''FastAPI is a web framework'' CHUNK_SIZE CHUNK_OVERLAP)"
    "\<forall>i<length new.
        payload (new ! i) ''chunk_index'' = Some (PyInt (int i))
      \<and> (''text'' \<notin> dom ?md \<longrightarrow>
           payload (new ! i) ''text''
             = Some (PyStr (chunk_text ''FastAPI is a web framework'' CHUNK_SIZE CHUNK_OVERLAP ! i)))"
    by blast
  have p: "points (snd ?X) = new" using new(1) by (simp add: w0_def)
  have l: "0 < length new" using new(2) cs by simp
  from new(3) l t have "payload (new ! 0) ''chunk_index'' = Some (PyInt (int 0))"
    "payload (new ! 0) ''text''
       = Some (PyStr (chunk_text ''FastAPI is a web framework'' CHUNK_SIZE CHUNK_OVERLAP ! 0))"
    by blast+
  then have "payload (points (snd ?X) ! 0) ''chunk_index'' = Some (PyInt 0)"
    "payload (points (snd ?X) ! 0) ''text'' = Some (PyStr ''FastAPI is a web framework'')"
    using p cs by simp_all
  with h1 ev show ?thesis by blast
qed

subsection \<open>\<open>load_pdf\<close> on a file with too little text\<close>

lemma init_collection_store:
  "init_collection env w = (r, w') \<Longrightarrow>
   points w' = points w \<and> embedder_loaded w' = embedder_loaded w \<and>
   (set (collections w) \<subseteq> set (collections w')) \<and>
   (\<forall>u. r = Inr u \<longrightarrow>
      collections w' = (if COLLECTION_NAME \<in> set (collections w) then collections w
                        else collections w @ [COLLECTION_NAME]))"
  by (auto simp: init_collection_def Let_def tick_def split: option.splits if_splits)

text \<open>
  \<open>load_pdf\<close> calls \<open>init_collection\<close> before it looks at the file. In front of a store
  without the collection, a rejected PDF therefore leaves the store changed: the
  collection has been created.
\<close>

theorem load_pdf_insufficient_counterexample:
  "fst (load_pdf env_up ''scan.pdf'' w0) = Inr (pdf_failed ''Insufficient text extracted from PDF'')
   \<and> collections w0 = []
   \<and> collections (snd (load_pdf env_up ''scan.pdf'' w0)) = [''codelens_docs'']"
  by code_simp

text \<open>
  C9, amended. When \<open>init_collection\<close> succeeds, the file exists and its pages are read
  without an exception, and the combined text has fewer than 100 characters, \<open>load_pdf\<close>
  returns the failure record with the error \<^verbatim>\<open>Insufficient text extracted from PDF\<close>
  and ingests nothing: \<open>add_document\<close> is not called (the world returned is the one after
  \<open>init_collection\<close> and the two reads of the file system), no point is written and the
  embedder is not loaded. The collections are those left by \<open>init_collection\<close>: unchanged
  if the configured collection existed, with that collection added otherwise.
\<close>

theorem load_pdf_insufficient_text:
  assumes "init_collection env w = (Inr u, w1)"
    and "os_path_exists env (clock w1) file_path"
    and "PdfReader env (clock (tick w1)) file_path = Inr pages"
    and "extract_pages pages = Inr text_parts"
    and "length (join ''\<newline>\<newline>'' text_parts) < 100"
  shows "load_pdf env file_path w
           = (Inr (pdf_failed ''Insufficient text extracted from PDF''), tick (tick w1))
     \<and> pdf_status (pdf_failed ''Insufficient text extracted from PDF'') = ''failed''
     \<and> pdf_error (pdf_failed ''Insufficient text extracted from PDF'')
           = Some ''Insufficient text extracted from PDF''
     \<and> points (tick (tick w1)) = points w
     \<and> embedder_loaded (tick (tick w1)) = embedder_loaded w
     \<and> collections (tick (tick w1))
           = (if COLLECTION_NAME \<in> set (collections w) then collections w
              else collections w @ [COLLECTION_NAME])"
proof -
  have "load_pdf_try env file_path w
           = (Inr (pdf_failed ''Insufficient text extracted from PDF''), tick (tick w1))"
    using assms by (simp add: load_pdf_try_def Let_def)
  then have r: "load_pdf env file_path w
           = (Inr (pdf_failed ''Insufficient text extracted from PDF''), tick (tick w1))"
    by (simp add: load_pdf_def)
  from init_collection_store [OF assms(1)]
  have "points w1 = points w" "embedder_loaded w1 = embedder_loaded w"
    "collections w1 = (if COLLECTION_NAME \<in> set (collections w) then collections w
                        else collections w @ [COLLECTION_NAME])"
    by blast+
  with r show ?thesis by (simp add: pdf_failed_def)
qed

theorem load_pdf_insufficient_text_witness:
  "load_pdf env_up ''scan.pdf'' w0
     = (Inr (pdf_failed ''Insufficient text extracted from PDF''),
        tick (tick (snd (init_collection env_up w0))))
   \<and> points (tick (tick (snd (init_collection env_up w0)))) = points w0"
proof -
  let ?w1 = "snd (init_collection env_up w0)"
  have "fst (init_collection env_up w0) = Inr ()"
    by (simp add: init_collection_def env_up_def w0_def tick_def Let_def COLLECTION_NAME_def)
  then have h1: "init_collection env_up w0 = (Inr (), ?w1)" by (metis prod.collapse)
  have h2: "os_path_exists env_up (clock ?w1) ''scan.pdf''" by (simp add: env_up_def)
  have h3: "PdfReader env_up (clock (tick ?w1)) ''scan.pdf''
      = Inr [Inr ''A scanned page with hardly any text on it.'']"
    by (simp add: env_up_def)
  have h4: "extract_pages [Inr ''A scanned page with hardly any text on it.'']
      = Inr [''A scanned page with hardly any text on it.'']"
    by simp
  have h5: "length (join ''\<newline>\<newline>'' [''A scanned page with hardly any text on it.'']) < 100"
    by simp
  from load_pdf_insufficient_text [OF h1 h2 h3 h4 h5] show ?thesis by blast
qed

subsection \<open>\<open>update_from_urls\<close>\<close>















end
